theory Spec2Isabelle
  imports Complex_Main "HOL-Library.Log_Nat" "HOL-Library.Multiset"
begin

section \<open>Python values used by vema.py\<close>

text \<open>
  The vending machine keeps its balance and its stock in Python integers (unbounded, modelled
  as \<open>int\<close>) and takes prices and inserted amounts as Python floats. The implicit raises of
  the built-in operations the source uses are values of \<open>py_error\<close>; a function that may
  raise returns \<open>py_error + 'a\<close>, with \<open>Inl\<close> for the exception.
\<close>

datatype py_error = ZeroDivisionError | OverflowError | ValueError

text \<open>
  A Python float is an IEEE-754 binary64 number. A finite one is identified with the rational
  number it denotes (the sign of a zero is dropped: nothing in vema.py observes it); the two
  infinities carry their sign (\<open>True\<close> for the negative one).
\<close>

datatype pyfloat = Finite rat | Infinite bool | NaN

text \<open>For \<open>0 < q\<close>, \<open>log2floor q\<close> is the exponent \<open>k\<close> with \<open>2^k \<le> q < 2^(k+1)\<close>.\<close>

definition log2floor :: "rat \<Rightarrow> int" where
  "log2floor q = (case quotient_of q of (a, b) \<Rightarrow>
     (let k = bitlen a - bitlen b in if 2 powi k \<le> q then k else k - 1))"

definition round_half_even :: "rat \<Rightarrow> int" where
  "round_half_even x =
     (let f = \<lfloor>x\<rfloor>; d = x - of_int f
      in if d < 1 / 2 then f else if 1 / 2 < d then f + 1 else if even f then f else f + 1)"

text \<open>
  Rounding an exact result to binary64, to nearest with ties to even: 53 significant bits,
  the unit in the last place never below \<open>2^-1074\<close> (gradual underflow), overflow to an
  infinity when the rounded magnitude reaches \<open>2^1024\<close>.
\<close>

definition round_double :: "rat \<Rightarrow> pyfloat" where
  "round_double q =
     (if q = 0 then Finite 0
      else let a = \<bar>q\<bar>;
               e = max (log2floor a - 52) (- 1074);
               m = round_half_even (a / 2 powi e);
               r = of_int m * 2 powi e
           in if 2 powi 1024 \<le> r then Infinite (q < 0)
              else Finite (if q < 0 then - r else r))"

text \<open>A decimal float literal of the source, such as \<open>1.20\<close>, is the nearest binary64.\<close>

definition float_literal :: "rat \<Rightarrow> pyfloat" where
  "float_literal q = round_double q"

text \<open>Float multiplication: the exact product, rounded.\<close>

fun float_mul :: "pyfloat \<Rightarrow> pyfloat \<Rightarrow> pyfloat" where
  "float_mul (Finite a) (Finite b) = round_double (a * b)"
| "float_mul (Finite a) (Infinite s) = (if a = 0 then NaN else Infinite (s \<noteq> (a < 0)))"
| "float_mul (Infinite s) (Finite b) = (if b = 0 then NaN else Infinite (s \<noteq> (b < 0)))"
| "float_mul (Infinite s) (Infinite t) = Infinite (s \<noteq> t)"
| "float_mul NaN y = NaN"
| "float_mul x NaN = NaN"

text \<open>
  \<open>x * 100\<close> with a float \<open>x\<close> and the integer literal \<open>100\<close>: the integer is converted
  to the float \<open>100.0\<close> (exactly) and the floats are multiplied.
\<close>

definition float_times_100 :: "pyfloat \<Rightarrow> pyfloat" where
  "float_times_100 x = float_mul x (Finite 100)"

text \<open>The comparison \<open>x > i\<close> of a float with an integer; it is false for NaN.\<close>

definition float_gt_int :: "pyfloat \<Rightarrow> int \<Rightarrow> bool" where
  "float_gt_int x i = (case x of Finite q \<Rightarrow> of_int i < q | Infinite s \<Rightarrow> \<not> s | NaN \<Rightarrow> False)"

text \<open>
  \<open>max(a, b)\<close> with an integer \<open>a\<close> and a float \<open>b\<close> returns \<open>a\<close> itself unless
  \<open>b > a\<close>, so its result is an integer or a float.
\<close>

datatype pynum = PyInt int | PyFloat pyfloat

definition py_max :: "int \<Rightarrow> pyfloat \<Rightarrow> pynum" where
  "py_max a b = (if float_gt_int b a then PyFloat b else PyInt a)"

text \<open>\<open>int(x)\<close> truncates a finite float toward zero and raises on an infinity or a NaN.\<close>

definition float_trunc :: "rat \<Rightarrow> int" where
  "float_trunc q = (if 0 \<le> q then \<lfloor>q\<rfloor> else \<lceil>q\<rceil>)"

fun py_int :: "pynum \<Rightarrow> py_error + int" where
  "py_int (PyInt i) = Inr i"
| "py_int (PyFloat (Finite q)) = Inr (float_trunc q)"
| "py_int (PyFloat (Infinite s)) = Inl OverflowError"
| "py_int (PyFloat NaN) = Inl ValueError"

text \<open>
  \<open>a / b\<close> on two integers is true division: the exact quotient, correctly rounded to a
  float; it raises when the divisor is zero or the quotient is too large for a float.
\<close>

definition py_truediv :: "int \<Rightarrow> int \<Rightarrow> py_error + pyfloat" where
  "py_truediv a b =
     (if b = 0 then Inl ZeroDivisionError
      else case round_double (of_int a / of_int b) of
             Infinite s \<Rightarrow> Inl OverflowError
           | f \<Rightarrow> Inr f)"

section \<open>Inventory\<close>

record product =
  prod_id :: int
  name :: string
  price :: pyfloat
  stock :: int

definition DATABASE :: "product list" where
  "DATABASE =
    [\<lparr>prod_id = 1, name = ''Water'', price = float_literal (50 / 100), stock = 10\<rparr>,
     \<lparr>prod_id = 2, name = ''Coke'', price = float_literal (100 / 100), stock = 10\<rparr>,
     \<lparr>prod_id = 3, name = ''Diet Coke'', price = float_literal (120 / 100), stock = 10\<rparr>,
     \<lparr>prod_id = 4, name = ''Iced Tea'', price = float_literal (100 / 100), stock = 10\<rparr>,
     \<lparr>prod_id = 5, name = ''Chocolate'', price = float_literal (150 / 100), stock = 10\<rparr>,
     \<lparr>prod_id = 6, name = ''Candy'', price = float_literal (95 / 100), stock = 10\<rparr>,
     \<lparr>prod_id = 7, name = ''Chips'', price = float_literal (250 / 100), stock = 10\<rparr>,
     \<lparr>prod_id = 8, name = ''Espresso'', price = float_literal (120 / 100), stock = 10\<rparr>,
     \<lparr>prod_id = 9, name = ''Coffee'', price = float_literal (150 / 100), stock = 10\<rparr>]"

text \<open>
  The dictionary \<open>_products\<close> of an \<open>Inventory\<close>, from product id to product. The constructor
  stores each product of the list under its own id, a later product replacing an earlier one
  with the same id.
\<close>

type_synonym inventory = "int \<rightharpoonup> product"

definition Inventory_init :: "product list option \<Rightarrow> inventory" where
  "Inventory_init product_list =
     (let pl = (case product_list of Some l \<Rightarrow> l | None \<Rightarrow> DATABASE)
      in fold (\<lambda>p products. products(prod_id p \<mapsto> p)) pl Map.empty)"

text \<open>
  The messages of \<open>retrieve_product\<close> are format strings, coloured by \<open>msg_error\<close> when they
  report a failure. A message is kept as the format string that produced it, together with
  the values interpolated into it:
  \<^item> \<open>No_product_with_id id\<close> is \<open>msg_error(f"No product with id {id}.")\<close>;
  \<^item> \<open>Product_is_sold_out id name\<close> is \<open>msg_error(f"Product {id} ({name}) is sold out.")\<close>;
  \<^item> \<open>Insufficient_funds\<close> is \<open>msg_error("Insufficient funds.")\<close>;
  \<^item> \<open>You_retrieved name price\<close> is \<open>f"You retrieved 1 {name} for the price of ...{price:.2f}."\<close>.
\<close>

datatype message =
    No_product_with_id int
  | Product_is_sold_out int string
  | Insufficient_funds
  | You_retrieved string pyfloat

text \<open>
  \<open>retrieve_product\<close> returns the pair (amount spent or \<open>None\<close>, message) and mutates the
  stock of the product it found; the model returns the inventory after the call as well.
  \<open>int(prod["price"] * 100)\<close> raises for a price that is not finite, before any mutation.
\<close>

definition retrieve_product ::
  "inventory \<Rightarrow> int \<Rightarrow> int \<Rightarrow> (py_error + (int option \<times> message)) \<times> inventory" where
  "retrieve_product products i amount_ct =
     (case products i of
        None \<Rightarrow> (Inr (None, No_product_with_id i), products)
      | Some prd \<Rightarrow>
          if stock prd = 0 then (Inr (None, Product_is_sold_out i (name prd)), products)
          else (case py_int (PyFloat (float_times_100 (price prd))) of
                  Inl e \<Rightarrow> (Inl e, products)
                | Inr price_ct \<Rightarrow>
                    if price_ct > amount_ct then (Inr (None, Insufficient_funds), products)
                    else (Inr (Some price_ct, You_retrieved (name prd) (price prd)),
                          products(i \<mapsto> prd\<lparr>stock := stock prd + (- 1)\<rparr>))))"

section \<open>The vending machine\<close>

definition DEFAULT_COINS :: "int list" where
  "DEFAULT_COINS = [5, 10, 20, 50, 100]"

text \<open>\<open>sorted(xs, reverse=True)\<close> on integers.\<close>

definition sorted_reverse :: "int list \<Rightarrow> int list" where
  "sorted_reverse xs = rev (sort xs)"

text \<open>
  The loop of \<open>amount_to_coins\<close> over the sorted denominations, with its two variables
  \<open>result\<close> and \<open>rest\<close>. \<open>[c] * n\<close> is the empty list for a negative \<open>n\<close>; \<open>//\<close> and \<open>%\<close>
  are floor division and its remainder, as \<open>div\<close> and \<open>mod\<close> on \<open>int\<close> are, and raise for
  a zero divisor.
\<close>

fun coin_loop :: "int list \<Rightarrow> int list \<Rightarrow> int \<Rightarrow> py_error + (int list \<times> int)" where
  "coin_loop [] result rest = Inr (result, rest)"
| "coin_loop (c # coins) result rest =
     (if c = 0 then Inl ZeroDivisionError
      else coin_loop coins (result @ replicate (nat (rest div c)) c) (rest mod c))"

text \<open>
  The pretty form of a coin: \<open>Euro_text n\<close> is the string \<open>f"{n}"\<close> followed by the euro
  sign, \<open>Ct_text c\<close> is \<open>f"{c}ct"\<close>.
\<close>

datatype coin_text = Euro_text int | Ct_text int

definition prettify_coin :: "int \<Rightarrow> py_error + coin_text" where
  "prettify_coin c =
     (if c \<ge> 100 then
        (case py_truediv c 100 of
           Inl e \<Rightarrow> Inl e
         | Inr f \<Rightarrow> (case py_int (PyFloat f) of Inl e \<Rightarrow> Inl e | Inr n \<Rightarrow> Inr (Euro_text n)))
      else Inr (Ct_text c))"

fun prettify_coins :: "int list \<Rightarrow> py_error + coin_text list" where
  "prettify_coins [] = Inr []"
| "prettify_coins (c # cs) =
     (case prettify_coin c of
        Inl e \<Rightarrow> Inl e
      | Inr t \<Rightarrow> (case prettify_coins cs of Inl e \<Rightarrow> Inl e | Inr ts \<Rightarrow> Inr (t # ts)))"

text \<open>The list \<open>amount_to_coins\<close> returns: integers, or strings when \<open>prettify\<close> is set.\<close>

datatype coin_list = Ints "int list" | Strs "coin_text list"

definition amount_to_coins :: "int \<Rightarrow> int list \<Rightarrow> bool \<Rightarrow> py_error + coin_list option" where
  "amount_to_coins amount_ct coin_set prettify =
     (case coin_loop (sorted_reverse coin_set) [] amount_ct of
        Inl e \<Rightarrow> Inl e
      | Inr (result, rest) \<Rightarrow>
          if rest \<noteq> 0 then Inr None
          else if prettify then
            (case prettify_coins result of Inl e \<Rightarrow> Inl e | Inr ss \<Rightarrow> Inr (Some (Strs ss)))
          else Inr (Some (Ints result)))"

record machine =
  inventory :: inventory
  balance :: int
  coins :: "int list"

definition VendingMachineModel_init :: "int \<Rightarrow> inventory option \<Rightarrow> machine" where
  "VendingMachineModel_init initial_balance inventory0 =
     \<lparr>inventory = (case inventory0 of Some i \<Rightarrow> i | None \<Rightarrow> Inventory_init None),
      balance = initial_balance,
      coins = sorted_reverse DEFAULT_COINS\<rparr>"

definition balance_eur :: "machine \<Rightarrow> py_error + pyfloat" where
  "balance_eur m = py_truediv (balance m) 100"

definition self_amount_to_coins :: "machine \<Rightarrow> int \<Rightarrow> bool \<Rightarrow> py_error + coin_list option" where
  "self_amount_to_coins m amount_ct prettify = amount_to_coins amount_ct (coins m) prettify"

text \<open>
  The methods that change the machine return their result and the machine after the call.
  An exception leaves the machine as the statements before the raise left it.
\<close>

definition insert_money :: "machine \<Rightarrow> pyfloat \<Rightarrow> (py_error + pyfloat) \<times> machine" where
  "insert_money m amount_eur =
     (case py_int (py_max 0 (float_times_100 amount_eur)) of
        Inl e \<Rightarrow> (Inl e, m)
      | Inr k \<Rightarrow> (let m' = m\<lparr>balance := balance m + k\<rparr> in (py_truediv (balance m') 100, m')))"

definition return_coins :: "machine \<Rightarrow> bool \<Rightarrow> (py_error + coin_list option) \<times> machine" where
  "return_coins m prettify =
     (case self_amount_to_coins m (balance m) prettify of
        Inl e \<Rightarrow> (Inl e, m)
      | Inr result \<Rightarrow> (Inr result, m\<lparr>balance := 0\<rparr>))"

definition buy_product ::
  "machine \<Rightarrow> int \<Rightarrow> (py_error + (int option \<times> message)) \<times> machine" where
  "buy_product m i =
     (case retrieve_product (inventory m) i (balance m) of
        (Inl e, products) \<Rightarrow> (Inl e, m\<lparr>inventory := products\<rparr>)
      | (Inr (amount_paid_ct, msg), products) \<Rightarrow>
          (let m' = m\<lparr>inventory := products\<rparr>
           in (Inr (amount_paid_ct, msg),
               (case amount_paid_ct of
                  Some paid \<Rightarrow> m'\<lparr>balance := balance m' - paid\<rparr>
                | None \<Rightarrow> m'))))"

section \<open>Calling sequences and test data\<close>

text \<open>The product list of the fixture \<open>inventory\<close> of test_vema.py.\<close>

definition test_database :: "product list" where
  "test_database =
    [\<lparr>prod_id = 1, name = ''Pinot Noir'', price = float_literal (450 / 100), stock = 1\<rparr>,
     \<lparr>prod_id = 2, name = ''Red Bull + Vodka'', price = float_literal (350 / 100), stock = 2\<rparr>,
     \<lparr>prod_id = 3, name = ''Soy Milk'', price = float_literal (100 / 100), stock = 0\<rparr>]"

text \<open>A catalogue with a single product, priced 0.29 and in stock once.\<close>

definition gum_database :: "product list" where
  "gum_database =
    [\<lparr>prod_id = 1, name = ''Gum'', price = float_literal (29 / 100), stock = 1\<rparr>]"

text \<open>
  A caller retrieving the product \<open>i\<close> several times in a row, offering the amounts of the
  list one after the other: each call works on the inventory the previous call left, and the
  results are collected in order.
\<close>

fun retrieve_each ::
  "inventory \<Rightarrow> int \<Rightarrow> int list \<Rightarrow> (py_error + (int option \<times> message)) list \<times> inventory" where
  "retrieve_each products i [] = ([], products)"
| "retrieve_each products i (amount_ct # amounts) =
     (case retrieve_product products i amount_ct of
        (r, products') \<Rightarrow>
          (case retrieve_each products' i amounts of
             (rs, products'') \<Rightarrow> (r # rs, products'')))"

text \<open>
  What a caller can do with a machine: the three methods that change it, each with its
  argument. \<open>run_calls\<close> makes the calls of a list in order, each on the machine the previous
  one left; a call that raises leaves the machine it had reached.
\<close>

datatype call = Insert_money pyfloat | Buy_product int | Return_coins bool

fun do_call :: "machine \<Rightarrow> call \<Rightarrow> machine" where
  "do_call m (Insert_money amount_eur) = snd (insert_money m amount_eur)"
| "do_call m (Buy_product i) = snd (buy_product m i)"
| "do_call m (Return_coins prettify) = snd (return_coins m prettify)"

fun run_calls :: "machine \<Rightarrow> call list \<Rightarrow> machine" where
  "run_calls m [] = m"
| "run_calls m (c # cs) = run_calls (do_call m c) cs"

section \<open>The operations as the specification words them\<close>

text \<open>
  The specification describes the decomposition as: for each denomination, largest first,
  take \<open>count = remaining // denom\<close>, append \<open>count\<close> copies and reduce the remaining
  amount by \<open>count * denom\<close>. \<open>greedy_spec\<close> follows these words on a list of
  denominations that is already in the order of use; it returns the coins and what is left.
\<close>

fun greedy_spec :: "int list \<Rightarrow> int \<Rightarrow> int list \<times> int" where
  "greedy_spec [] remaining = ([], remaining)"
| "greedy_spec (denom # ds) remaining =
     (let count = remaining div denom;
          (picked, left) = greedy_spec ds (remaining - count * denom)
      in (replicate (nat count) denom @ picked, left))"

text \<open>
  The specification gives the price in cent of a product as \<open>floor(price * 100)\<close> and the
  cents that \<open>insert_money\<close> adds as \<open>floor(max(0, amount) * 100)\<close>, where the price and the
  amount are decimal currency amounts. Both are taken here as the specification writes them,
  in exact arithmetic on the decimal amount.
\<close>

definition spec_price_ct :: "rat \<Rightarrow> int" where
  "spec_price_ct price_eur = \<lfloor>price_eur * 100\<rfloor>"

definition spec_inserted_cents :: "rat \<Rightarrow> int" where
  "spec_inserted_cents amount_eur = \<lfloor>max 0 amount_eur * 100\<rfloor>"

section \<open>Facts about rounding to binary64\<close>

lemma bitlen_powi_bounds:
  assumes "0 < x"
  shows "(2::rat) powi (bitlen x - 1) \<le> of_int x" "of_int x < (2::rat) powi (bitlen x)"
proof -
  have ge1: "1 \<le> bitlen x" using assms by (auto simp: bitlen_alt_def)
  have "(2::int) ^ nat (bitlen x - 1) \<le> x" using bitlen_bounds[OF assms] by simp
  then have "(of_int ((2::int) ^ nat (bitlen x - 1))::rat) \<le> of_int x"
    by (simp only: of_int_le_iff)
  then show "(2::rat) powi (bitlen x - 1) \<le> of_int x"
    using ge1 by (simp add: power_int_def)
  have "x < (2::int) ^ nat (bitlen x)" using bitlen_bounds[OF assms] by simp
  then have "(of_int x::rat) < of_int ((2::int) ^ nat (bitlen x))"
    by (simp only: of_int_less_iff)
  then show "of_int x < (2::rat) powi (bitlen x)"
    using ge1 by (simp add: power_int_def)
qed

lemma log2floor_bounds:
  assumes "0 < q"
  shows "2 powi (log2floor q) \<le> q \<and> q < 2 powi (log2floor q + 1)"
proof -
  obtain a b where ab: "quotient_of q = (a, b)" by force
  have b: "0 < b" using quotient_of_denom_pos[OF ab] .
  have q: "q = of_int a / of_int b" using quotient_of_div[OF ab] .
  have a: "0 < a" using assms b q by (simp add: zero_less_divide_iff)
  define k where "k = bitlen a - bitlen b"
  have up: "q < 2 powi (k + 1)"
  proof -
    have "q < 2 powi (bitlen a) / of_int b"
      unfolding q using bitlen_powi_bounds(2)[OF a] b by (simp add: divide_strict_right_mono)
    also have "\<dots> \<le> 2 powi (bitlen a) / 2 powi (bitlen b - 1)"
      using bitlen_powi_bounds(1)[OF b] b by (intro divide_left_mono) (auto intro!: mult_pos_pos)
    also have "\<dots> = 2 powi (bitlen a - (bitlen b - 1))"
      by (rule power_int_diff[symmetric]) simp
    also have "bitlen a - (bitlen b - 1) = k + 1"
      by (simp add: k_def)
    finally show ?thesis .
  qed
  have lo: "2 powi (k - 1) \<le> q"
  proof -
    have e: "k - 1 = bitlen a - 1 - bitlen b"
      by (simp add: k_def)
    have "(2::rat) powi (k - 1) = 2 powi (bitlen a - 1 - bitlen b)"
      by (simp only: e)
    also have "\<dots> = 2 powi (bitlen a - 1) / 2 powi (bitlen b)"
      by (rule power_int_diff) simp
    also have "\<dots> \<le> of_int a / 2 powi (bitlen b)"
      using bitlen_powi_bounds(1)[OF a] by (simp add: divide_right_mono)
    also have "\<dots> \<le> of_int a / of_int b"
      using bitlen_powi_bounds(2)[OF b] a b by (intro divide_left_mono) (auto intro!: mult_pos_pos)
    finally show ?thesis unfolding q .
  qed
  have l: "log2floor q = (if 2 powi k \<le> q then k else k - 1)"
    by (simp add: log2floor_def ab k_def Let_def)
  show ?thesis
  proof (cases "2 powi k \<le> q")
    case True
    then show ?thesis using up l by simp
  next
    case False
    then show ?thesis using lo l by simp
  qed
qed

lemma log2floor_unique:
  assumes "0 < q" "2 powi k \<le> q" "q < 2 powi (k + 1)"
  shows "log2floor q = k"
proof -
  let ?l = "log2floor q"
  from log2floor_bounds[OF assms(1)] have b: "2 powi ?l \<le> q" "q < 2 powi (?l + 1)" by simp_all
  have "(2::rat) powi k < 2 powi (?l + 1)" using assms(2) b(2) by simp
  then have 1: "k < ?l + 1" using power_int_increasing[of "?l + 1" k "2::rat"] by (cases "k < ?l + 1") auto
  have "(2::rat) powi ?l < 2 powi (k + 1)" using assms(3) b(1) by simp
  then have 2: "?l < k + 1" using power_int_increasing[of "k + 1" ?l "2::rat"] by (cases "?l < k + 1") auto
  from 1 2 show ?thesis by simp
qed

lemma round_half_even_eqI:
  assumes "of_int m - 1 / 2 < x" "x < of_int m + 1 / 2"
  shows "round_half_even x = m"
proof (cases "of_int m \<le> x")
  case True
  then have f: "\<lfloor>x\<rfloor> = m" using assms(2) by (intro floor_unique) auto
  show ?thesis using assms(2) by (simp add: round_half_even_def f Let_def)
next
  case False
  then have f: "\<lfloor>x\<rfloor> = m - 1" using assms(1) by (intro floor_unique) auto
  show ?thesis using assms(1) by (simp add: round_half_even_def f Let_def)
qed

lemma round_half_even_nonneg: "0 \<le> x \<Longrightarrow> 0 \<le> round_half_even x"
  by (simp add: round_half_even_def Let_def)

lemma round_half_even_le:
  assumes "x \<le> of_int n"
  shows "round_half_even x \<le> n"
proof (cases "\<lfloor>x\<rfloor> = n")
  case True
  then have "x = of_int n" using assms by (metis of_int_floor_le order_antisym)
  then show ?thesis by (simp add: round_half_even_def Let_def)
next
  case False
  have "\<lfloor>x\<rfloor> \<le> n" using assms by (simp add: floor_le_iff)
  then have "\<lfloor>x\<rfloor> + 1 \<le> n" using False by simp
  then show ?thesis by (simp add: round_half_even_def Let_def)
qed

lemma round_double_normal:
  assumes "0 < q" "2 powi k \<le> q" "q < 2 powi (k + 1)" "- 1022 \<le> k" "k \<le> 1022"
  shows "round_double q = Finite (of_int (round_half_even (q / 2 powi (k - 52))) * 2 powi (k - 52))"
proof -
  have l: "log2floor q = k" using assms(1-3) by (simp add: log2floor_unique)
  have e: "max (k - 52) (- 1074) = k - 52" using assms(4) by simp
  have a: "\<bar>q\<bar> = q" "q \<noteq> 0" "\<not> q < 0" using assms(1) by simp_all
  let ?m = "round_half_even (q / 2 powi (k - 52))"
  have "q / 2 powi (k - 52) \<le> 2 powi (k + 1) / 2 powi (k - 52)"
    using assms(3) by (simp add: divide_right_mono)
  also have "\<dots> = 2 powi (k + 1 - (k - 52))"
    by (rule power_int_diff[symmetric]) simp
  also have "\<dots> = of_int (2 ^ 53)" by simp
  finally have "?m \<le> 2 ^ 53" by (rule round_half_even_le)
  then have "(of_int ?m::rat) \<le> of_int (2 ^ 53)" by (simp only: of_int_le_iff)
  then have "of_int ?m * 2 powi (k - 52) \<le> (2::rat) powi 53 * 2 powi (k - 52)"
    by (intro mult_right_mono) auto
  also have "\<dots> = 2 powi (53 + (k - 52))"
    by (rule power_int_add[symmetric]) simp
  also have "\<dots> \<le> 2 powi 1023"
    using assms(5) by (intro power_int_increasing) auto
  also have "\<dots> < (2::rat) powi 1024" by simp
  finally have r: "\<not> 2 powi 1024 \<le> of_int ?m * (2::rat) powi (k - 52)" by simp
  show ?thesis
    unfolding round_double_def Let_def a l e using r assms(1) by (simp only: if_False) simp
qed

lemma round_double_eqI:
  assumes "0 < q" "2 powi k \<le> q" "q < 2 powi (k + 1)" "- 1022 \<le> k" "k \<le> 1022"
    and "of_int m - 1 / 2 < q / 2 powi (k - 52)" "q / 2 powi (k - 52) < of_int m + 1 / 2"
  shows "round_double q = Finite (of_int m * 2 powi (k - 52))"
  using round_double_normal[OF assms(1-5)] round_half_even_eqI[OF assms(6,7)] by simp

lemma round_double_nonneg:
  assumes "0 \<le> q"
  shows "(\<exists>r. round_double q = Finite r \<and> 0 \<le> r) \<or> round_double q = Infinite False"
proof (cases "q = 0")
  case True
  then show ?thesis by (simp add: round_double_def)
next
  case False
  then have q: "0 < q" using assms by simp
  define e where "e = max (log2floor \<bar>q\<bar> - 52) (- 1074)"
  define m where "m = round_half_even (\<bar>q\<bar> / 2 powi e)"
  have "0 \<le> \<bar>q\<bar> / 2 powi e" by (simp add: zero_le_power_int)
  then have "0 \<le> m" unfolding m_def by (rule round_half_even_nonneg)
  then have r: "0 \<le> of_int m * (2::rat) powi e" by (simp add: zero_le_power_int)
  have "round_double q = (if 2 powi 1024 \<le> of_int m * (2::rat) powi e then Infinite False
      else Finite (of_int m * 2 powi e))"
    using q unfolding round_double_def Let_def e_def m_def by simp
  then show ?thesis using r by (cases "2 powi 1024 \<le> of_int m * (2::rat) powi e") simp_all
qed

lemma round_double_nonpos:
  assumes "q \<le> 0"
  shows "(\<exists>r. round_double q = Finite r \<and> r \<le> 0) \<or> round_double q = Infinite True"
proof (cases "q = 0")
  case True
  then show ?thesis by (simp add: round_double_def)
next
  case False
  then have q: "q < 0" using assms by simp
  define e where "e = max (log2floor \<bar>q\<bar> - 52) (- 1074)"
  define m where "m = round_half_even (\<bar>q\<bar> / 2 powi e)"
  have "0 \<le> \<bar>q\<bar> / 2 powi e" by (simp add: zero_le_power_int)
  then have "0 \<le> m" unfolding m_def by (rule round_half_even_nonneg)
  then have r: "0 \<le> of_int m * (2::rat) powi e" by (simp add: zero_le_power_int)
  have "round_double q = (if 2 powi 1024 \<le> of_int m * (2::rat) powi e then Infinite True
      else Finite (- (of_int m * 2 powi e)))"
    using q unfolding round_double_def Let_def e_def m_def by simp
  then show ?thesis using r by (cases "2 powi 1024 \<le> of_int m * (2::rat) powi e") simp_all
qed

lemma round_double_finite:
  assumes "\<bar>q\<bar> < 2 powi 1023"
  shows "\<exists>r. round_double q = Finite r"
proof (cases "q = 0")
  case True
  then show ?thesis by (simp add: round_double_def)
next
  case False
  define a where "a = \<bar>q\<bar>"
  define k where "k = log2floor a"
  define e where "e = max (k - 52) (- 1074)"
  define m where "m = round_half_even (a / 2 powi e)"
  have a: "0 < a" using False by (simp add: a_def)
  from log2floor_bounds[OF a] have lo: "2 powi k \<le> a" and up: "a < 2 powi (k + 1)"
    by (simp_all add: k_def)
  have "(2::rat) powi k < 2 powi 1023" using lo assms by (simp add: a_def)
  then have k: "k < 1023"
    using power_int_increasing[of 1023 k "2::rat"] by (cases "k < 1023") auto
  have e1: "k + 1 - e \<le> 53" and e2: "53 + e \<le> 1023" using k by (simp_all add: e_def)
  have "a / 2 powi e \<le> 2 powi (k + 1) / 2 powi e"
    using up by (simp add: divide_right_mono)
  also have "\<dots> = 2 powi (k + 1 - e)"
    by (rule power_int_diff[symmetric]) simp
  also have "\<dots> \<le> 2 powi 53"
    using e1 by (intro power_int_increasing) auto
  also have "\<dots> = of_int (2 ^ 53)" by simp
  finally have "m \<le> 2 ^ 53" unfolding m_def by (rule round_half_even_le)
  then have "(of_int m::rat) \<le> of_int (2 ^ 53)" by (simp only: of_int_le_iff)
  then have "of_int m * 2 powi e \<le> (2::rat) powi 53 * 2 powi e"
    by (intro mult_right_mono) auto
  also have "\<dots> = 2 powi (53 + e)"
    by (rule power_int_add[symmetric]) simp
  also have "\<dots> \<le> 2 powi 1023"
    using e2 by (intro power_int_increasing) auto
  also have "\<dots> < (2::rat) powi 1024" by simp
  finally have r: "\<not> 2 powi 1024 \<le> of_int m * (2::rat) powi e" by simp
  have "round_double q =
      (if 2 powi 1024 \<le> of_int m * (2::rat) powi e then Infinite (q < 0)
       else Finite (if q < 0 then - (of_int m * 2 powi e) else of_int m * 2 powi e))"
    using False unfolding round_double_def Let_def m_def e_def k_def a_def by (simp only: if_False)
  with r show ?thesis by (simp only: if_False) blast
qed

lemma py_truediv_100_returns:
  assumes "\<bar>b\<bar> < 2 ^ 1023"
  shows "\<exists>f. py_truediv b 100 = Inr f"
proof -
  have "\<bar>rat_of_int b / 100\<bar> \<le> \<bar>rat_of_int b\<bar>" by simp
  also have "\<dots> = of_int \<bar>b\<bar>" by simp
  also have "\<dots> < of_int (2 ^ 1023)" using assms by (simp only: of_int_less_iff)
  also have "\<dots> = 2 powi 1023" by simp
  finally obtain r where "round_double (of_int b / 100) = Finite r"
    using round_double_finite by blast
  then show ?thesis by (simp add: py_truediv_def)
qed

text \<open>
  The floats that the catalogue, the tests and the claims mention, computed with
  \<open>round_double_eqI\<close>: the exponent and the significand are given and checked.
\<close>

lemma round_double_1: "round_double 1 = Finite 1"
  using round_double_eqI[of 1 0 4503599627370496] by (simp add: power_int_minus_divide)

lemma float_literal_1_20: "float_literal (6 / 5) = Finite (5404319552844595 / 4503599627370496)"
  unfolding float_literal_def
  using round_double_eqI[of "120 / 100" 0 5404319552844595] by (simp add: power_int_minus_divide)

lemma float_times_100_1_20: "float_times_100 (Finite (5404319552844595 / 4503599627370496)) = Finite 120"
  unfolding float_times_100_def
  using round_double_eqI[of "5404319552844595 / 2 ^ 52 * 100" 6 8444249301319680]
  by (simp add: power_int_minus_divide)

lemma float_literal_4_50: "float_literal (9 / 2) = Finite (9 / 2)"
  unfolding float_literal_def
  using round_double_eqI[of "450 / 100" 2 5066549580791808] by (simp add: power_int_minus_divide)

lemma float_times_100_4_50: "float_times_100 (Finite (9 / 2)) = Finite 450"
  unfolding float_times_100_def
  using round_double_eqI[of "9 / 2 * 100" 8 7916483719987200] by (simp add: power_int_minus_divide)

lemma float_literal_3_50: "float_literal (7 / 2) = Finite (7 / 2)"
  unfolding float_literal_def
  using round_double_eqI[of "7 / 2" 1 7881299347898368] by (simp add: power_int_minus_divide)

lemma float_times_100_3_50: "float_times_100 (Finite (7 / 2)) = Finite 350"
  unfolding float_times_100_def
  using round_double_eqI[of "7 / 2 * 100" 8 6157265115545600] by (simp add: power_int_minus_divide)

lemma float_literal_0_2498: "float_literal (1249 / 5000) = Finite (8999993495337199 / 36028797018963968)"
  unfolding float_literal_def
  using round_double_eqI[of "2498 / 10000" "- 3" 8999993495337199] by (simp add: power_int_minus_divide)

lemma float_times_100_0_2498:
  "float_times_100 (Finite (8999993495337199 / 36028797018963968)) = Finite (7031244918232187 / 281474976710656)"
  unfolding float_times_100_def
  using round_double_eqI[of "8999993495337199 / 2 ^ 55 * 100" 4 7031244918232187]
  by (simp add: power_int_minus_divide)

lemma floor_24_98: "\<lfloor>7031244918232187 / 281474976710656 :: rat\<rfloor> = 24"
  by (rule floor_unique) simp_all

lemma float_times_100_nonneg:
  assumes "0 \<le> q" "float_times_100 (Finite q) = Finite c"
  shows "0 \<le> c"
  using round_double_nonneg[of "q * 100"] assms by (auto simp: float_times_100_def)

lemma float_trunc_nonneg: "0 \<le> c \<Longrightarrow> float_trunc c = \<lfloor>c\<rfloor>"
  by (simp add: float_trunc_def)

text \<open>
  Rounding is visible in the cent value of an amount: the literal \<open>0.29\<close> denotes a float
  slightly below 29/100, its product with 100 rounds to a float slightly below 29, and
  \<open>int\<close> gives 28. In the same way \<open>4.35\<close> gives 434.
\<close>

lemma float_literal_0_29: "float_literal (29 / 100) = Finite (5224175567749775 / 18014398509481984)"
  unfolding float_literal_def
  using round_double_eqI[of "29 / 100" "- 2" 5224175567749775] by (simp add: power_int_minus_divide)

lemma float_times_100_0_29:
  "float_times_100 (Finite (5224175567749775 / 18014398509481984)) =
     Finite (8162774324609023 / 281474976710656)"
  unfolding float_times_100_def
  using round_double_eqI[of "5224175567749775 / 18014398509481984 * 100" 4 8162774324609023]
  by (simp add: power_int_minus_divide)

lemma floor_28_99: "\<lfloor>8162774324609023 / 281474976710656 :: rat\<rfloor> = 28"
  by (rule floor_unique) simp_all

lemma price_ct_0_29: "py_int (PyFloat (float_times_100 (float_literal (29 / 100)))) = Inr 28"
  by (simp add: float_literal_0_29 float_times_100_0_29 float_trunc_def floor_28_99)

lemma float_literal_4_35: "float_literal (87 / 20) = Finite (2448832297382707 / 562949953421312)"
  unfolding float_literal_def
  using round_double_eqI[of "87 / 20" 2 4897664594765414] by (simp add: power_int_minus_divide)

lemma float_times_100_4_35:
  "float_times_100 (Finite (2448832297382707 / 562949953421312)) =
     Finite (7652600929320959 / 17592186044416)"
  unfolding float_times_100_def
  using round_double_eqI[of "2448832297382707 / 562949953421312 * 100" 8 7652600929320959]
  by (simp add: power_int_minus_divide)

lemma floor_434_99: "\<lfloor>7652600929320959 / 17592186044416 :: rat\<rfloor> = 434"
  by (rule floor_unique) simp_all

section \<open>Facts about the coin loop\<close>

lemma coin_loop_greedy:
  "0 \<notin> set cs \<Longrightarrow>
   coin_loop cs result rest =
     Inr (result @ fst (greedy_spec cs rest), snd (greedy_spec cs rest))"
proof (induction cs arbitrary: result rest)
  case Nil
  then show ?case by simp
next
  case (Cons c cs)
  then have c: "c \<noteq> 0" and cs: "0 \<notin> set cs" by auto
  have m: "rest - rest div c * c = rest mod c"
    by (simp add: minus_div_mult_eq_mod)
  show ?case
    using c Cons.IH[OF cs] by (simp add: m split_beta Let_def)
qed

lemma greedy_spec_sum:
  "\<forall>c\<in>set ds. 0 < c \<Longrightarrow> 0 \<le> r \<Longrightarrow>
   sum_list (fst (greedy_spec ds r)) + snd (greedy_spec ds r) = r \<and> 0 \<le> snd (greedy_spec ds r)"
proof (induction ds arbitrary: r)
  case Nil
  then show ?case by simp
next
  case (Cons d ds)
  then have d: "0 < d" and ds: "\<forall>c\<in>set ds. 0 < c" by auto
  let ?r = "r - r div d * d"
  have r': "?r = r mod d" by (simp add: minus_div_mult_eq_mod)
  then have nonneg: "0 \<le> ?r" using d by simp
  have cnt: "0 \<le> r div d" using d Cons.prems(2) by (simp add: pos_imp_zdiv_nonneg_iff)
  have rep: "sum_list (replicate (nat (r div d)) d) = r div d * d"
    using cnt by (simp add: sum_list_replicate)
  from Cons.IH[OF ds nonneg] rep show ?case
    by (simp add: split_beta Let_def)
qed

lemma greedy_spec_set: "set (fst (greedy_spec ds r)) \<subseteq> set ds"
  by (induction ds arbitrary: r) (auto simp: split_beta Let_def)

lemma greedy_spec_zero: "snd (greedy_spec ds 0) = 0"
  by (induction ds) (auto simp: split_beta Let_def)

lemma greedy_spec_unit: "1 \<in> set ds \<Longrightarrow> snd (greedy_spec ds r) = 0"
proof (induction ds arbitrary: r)
  case Nil
  then show ?case by simp
next
  case (Cons d ds)
  show ?case
  proof (cases "d = 1")
    case True
    then show ?thesis by (simp add: split_beta Let_def greedy_spec_zero)
  next
    case False
    then have "1 \<in> set ds" using Cons.prems by simp
    then show ?thesis using Cons.IH by (simp add: split_beta Let_def)
  qed
qed

lemma sorted_reverse_descending:
  "sorted (rev (sorted_reverse xs))" "mset (sorted_reverse xs) = mset xs" "set (sorted_reverse xs) = set xs"
  by (simp_all add: sorted_reverse_def)

lemma amount_to_coins_greedy:
  assumes "0 \<notin> set coin_set"
  shows "amount_to_coins amount_ct coin_set False =
     (case greedy_spec (sorted_reverse coin_set) amount_ct of
        (picked, left) \<Rightarrow> if left = 0 then Inr (Some (Ints picked)) else Inr None)"
proof -
  have "0 \<notin> set (sorted_reverse coin_set)"
    using assms by (simp add: sorted_reverse_descending)
  from coin_loop_greedy[OF this, of "[]" amount_ct] show ?thesis
    by (simp add: amount_to_coins_def split_beta)
qed

lemma prettify_coin_default:
  "c \<in> {5, 10, 20, 50, 100} \<Longrightarrow> \<exists>t. prettify_coin c = Inr t"
  by (auto simp: prettify_coin_def py_truediv_def round_double_1 float_trunc_def)

lemma prettify_coins_default:
  "set xs \<subseteq> {5, 10, 20, 50, 100} \<Longrightarrow> \<exists>ts. prettify_coins xs = Inr ts"
proof (induction xs)
  case Nil
  then show ?case by simp
next
  case (Cons c xs)
  then obtain t ts where "prettify_coin c = Inr t" "prettify_coins xs = Inr ts"
    using prettify_coin_default[of c] by auto
  then show ?case by simp
qed

lemma set_default_coins: "set (sorted_reverse DEFAULT_COINS) = {5, 10, 20, 50, 100}"
  by (auto simp: sorted_reverse_descending DEFAULT_COINS_def)

lemma amount_to_coins_default_returns:
  assumes "set coin_set = {5, 10, 20, 50, 100}"
  shows "\<exists>r. amount_to_coins amount_ct coin_set prettify = Inr r"
proof -
  let ?ds = "sorted_reverse coin_set"
  have s: "set ?ds = {5, 10, 20, 50, 100}" using assms by (simp add: sorted_reverse_descending)
  then have nz: "0 \<notin> set ?ds" by simp
  note l = coin_loop_greedy[OF nz, of "[]" amount_ct]
  have "set (fst (greedy_spec ?ds amount_ct)) \<subseteq> {5, 10, 20, 50, 100}"
    using greedy_spec_set[of ?ds amount_ct] s by simp
  from prettify_coins_default[OF this] obtain ts
    where "prettify_coins (fst (greedy_spec ?ds amount_ct)) = Inr ts" ..
  then show ?thesis by (simp add: amount_to_coins_def l split_beta)
qed

section \<open>Facts about retrieval\<close>

lemma retrieve_product_unknown:
  "products i = None \<Longrightarrow>
   retrieve_product products i amount_ct = (Inr (None, No_product_with_id i), products)"
  by (simp add: retrieve_product_def)

lemma retrieve_product_sold_out:
  "products i = Some p \<Longrightarrow> stock p = 0 \<Longrightarrow>
   retrieve_product products i amount_ct = (Inr (None, Product_is_sold_out i (name p)), products)"
  by (simp add: retrieve_product_def)

lemma retrieve_product_insufficient:
  "products i = Some p \<Longrightarrow> stock p \<noteq> 0 \<Longrightarrow>
   py_int (PyFloat (float_times_100 (price p))) = Inr price_ct \<Longrightarrow> amount_ct < price_ct \<Longrightarrow>
   retrieve_product products i amount_ct = (Inr (None, Insufficient_funds), products)"
  by (simp add: retrieve_product_def)

lemma retrieve_product_success:
  "products i = Some p \<Longrightarrow> stock p \<noteq> 0 \<Longrightarrow>
   py_int (PyFloat (float_times_100 (price p))) = Inr price_ct \<Longrightarrow> price_ct \<le> amount_ct \<Longrightarrow>
   retrieve_product products i amount_ct =
     (Inr (Some price_ct, You_retrieved (name p) (price p)),
      products(i \<mapsto> p\<lparr>stock := stock p - 1\<rparr>))"
  by (simp add: retrieve_product_def)

lemma retrieve_product_raises:
  "products i = Some p \<Longrightarrow> stock p \<noteq> 0 \<Longrightarrow>
   py_int (PyFloat (float_times_100 (price p))) = Inl e \<Longrightarrow>
   retrieve_product products i amount_ct = (Inl e, products)"
  by (simp add: retrieve_product_def)

lemma retrieve_product_SomeD:
  assumes "retrieve_product products i amount_ct = (Inr (Some paid, msg), products')"
  shows "\<exists>p. products i = Some p \<and> stock p \<noteq> 0 \<and>
           py_int (PyFloat (float_times_100 (price p))) = Inr paid \<and> paid \<le> amount_ct \<and>
           msg = You_retrieved (name p) (price p) \<and>
           products' = products(i \<mapsto> p\<lparr>stock := stock p - 1\<rparr>)"
  using assms
  by (auto simp: retrieve_product_def split: option.splits if_splits sum.splits)

lemma retrieve_product_unchanged:
  assumes "retrieve_product products i amount_ct = (r, products')"
    and "\<forall>paid msg. r \<noteq> Inr (Some paid, msg)"
  shows "products' = products"
  using assms
  by (auto simp: retrieve_product_def split: option.splits if_splits sum.splits)

lemma retrieve_each_until_sold_out:
  "products i = Some p \<Longrightarrow> stock p = int (length amounts) \<Longrightarrow>
   py_int (PyFloat (float_times_100 (price p))) = Inr price_ct \<Longrightarrow>
   \<forall>a\<in>set amounts. price_ct \<le> a \<Longrightarrow>
   retrieve_each products i amounts =
     (replicate (length amounts) (Inr (Some price_ct, You_retrieved (name p) (price p))),
      products(i \<mapsto> p\<lparr>stock := 0\<rparr>))"
proof (induction amounts arbitrary: products p)
  case Nil
  then have "p\<lparr>stock := 0\<rparr> = p" by simp
  then show ?case using Nil by (simp add: map_upd_triv)
next
  case (Cons a amounts)
  let ?p = "p\<lparr>stock := stock p - 1\<rparr>"
  let ?products = "products(i \<mapsto> ?p)"
  have s: "stock p \<noteq> 0" using Cons.prems(2) by simp
  have a: "price_ct \<le> a" using Cons.prems(4) by simp
  have step: "retrieve_product products i a =
      (Inr (Some price_ct, You_retrieved (name p) (price p)), ?products)"
    by (rule retrieve_product_success[of products i p, OF Cons.prems(1) s Cons.prems(3) a])
  have 1: "?products i = Some ?p" by simp
  have 2: "stock ?p = int (length amounts)" using Cons.prems(2) by simp
  have 3: "py_int (PyFloat (float_times_100 (price ?p))) = Inr price_ct"
    using Cons.prems(3) by simp
  have 4: "\<forall>a\<in>set amounts. price_ct \<le> a" using Cons.prems(4) by simp
  have ih: "retrieve_each ?products i amounts =
      (replicate (length amounts) (Inr (Some price_ct, You_retrieved (name ?p) (price ?p))),
       ?products(i \<mapsto> ?p\<lparr>stock := 0\<rparr>))"
    by (rule Cons.IH) (rule 1 2 3 4)+
  have upd: "?products(i \<mapsto> ?p\<lparr>stock := 0\<rparr>) = products(i \<mapsto> p\<lparr>stock := 0\<rparr>)"
    by (simp only: fun_upd_upd) simp
  have n: "name ?p = name p" "price ?p = price p" by simp_all
  have "retrieve_each products i (a # amounts) =
      (Inr (Some price_ct, You_retrieved (name p) (price p)) #
       replicate (length amounts) (Inr (Some price_ct, You_retrieved (name p) (price p))),
       products(i \<mapsto> p\<lparr>stock := 0\<rparr>))"
    by (simp only: retrieve_each.simps step ih prod.case upd n)
  then show ?case by (simp only: length_Cons replicate.simps)
qed

lemma test_inventory_lookup:
  "Inventory_init (Some test_database) 1 =
     Some \<lparr>prod_id = 1, name = ''Pinot Noir'', price = float_literal (450 / 100), stock = 1\<rparr>"
  "Inventory_init (Some test_database) 3 =
     Some \<lparr>prod_id = 3, name = ''Soy Milk'', price = float_literal (100 / 100), stock = 0\<rparr>"
  "Inventory_init (Some test_database) 4 = None"
  by (simp_all add: Inventory_init_def test_database_def)

lemma test_inventory_lookup_2:
  "Inventory_init (Some test_database) 2 =
     Some \<lparr>prod_id = 2, name = ''Red Bull + Vodka'', price = float_literal (7 / 2), stock = 2\<rparr>"
  by (simp add: Inventory_init_def test_database_def)

lemma DATABASE_lookup_3:
  "Inventory_init None 3 =
     Some \<lparr>prod_id = 3, name = ''Diet Coke'', price = float_literal (6 / 5), stock = 10\<rparr>"
  by (simp add: Inventory_init_def DATABASE_def)

lemma gum_database_lookup:
  "Inventory_init (Some gum_database) 1 =
     Some \<lparr>prod_id = 1, name = ''Gum'', price = float_literal (29 / 100), stock = 1\<rparr>"
  by (simp add: Inventory_init_def gum_database_def)

lemma price_ct_1_20: "py_int (PyFloat (float_times_100 (float_literal (6 / 5)))) = Inr 120"
  by (simp add: float_literal_1_20 float_times_100_1_20 float_trunc_def)

text \<open>The product priced 1.20 of the default catalogue costs 120 cent.\<close>

lemma retrieve_product_1_20_costs_120:
  "spec_price_ct (120 / 100) = 120 \<and>
   fst (retrieve_product (Inventory_init None) 3 119) = Inr (None, Insufficient_funds) \<and>
   fst (retrieve_product (Inventory_init None) 3 120) =
     Inr (Some 120, You_retrieved ''Diet Coke'' (float_literal (6 / 5)))"
proof -
  let ?p = "\<lparr>prod_id = 3, name = ''Diet Coke'', price = float_literal (6 / 5), stock = 10\<rparr>"
  have s: "stock ?p \<noteq> 0" by simp
  have pc: "py_int (PyFloat (float_times_100 (price ?p))) = Inr 120" by (simp add: price_ct_1_20)
  have "retrieve_product (Inventory_init None) 3 119 =
      (Inr (None, Insufficient_funds), Inventory_init None)"
    by (rule retrieve_product_insufficient[of "Inventory_init None" 3 ?p, OF DATABASE_lookup_3 s pc])
      simp
  moreover have "retrieve_product (Inventory_init None) 3 120 =
      (Inr (Some 120, You_retrieved (name ?p) (price ?p)),
       (Inventory_init None)(3 \<mapsto> ?p\<lparr>stock := stock ?p - 1\<rparr>))"
    by (rule retrieve_product_success[of "Inventory_init None" 3 ?p, OF DATABASE_lookup_3 s pc])
      simp
  ultimately show ?thesis by (simp add: spec_price_ct_def)
qed

lemma price_ct_4_50: "py_int (PyFloat (float_times_100 (float_literal (9 / 2)))) = Inr 450"
  by (simp add: float_literal_4_50 float_times_100_4_50 float_trunc_def)

lemma price_ct_3_50: "py_int (PyFloat (float_times_100 (float_literal (7 / 2)))) = Inr 350"
  by (simp add: float_literal_3_50 float_times_100_3_50 float_trunc_def)

section \<open>Facts about the machine\<close>

lemma return_coins_returned:
  "amount_to_coins (balance m) (coins m) prettify = Inr r \<Longrightarrow>
   return_coins m prettify = (Inr r, m\<lparr>balance := 0\<rparr>)"
  by (simp add: return_coins_def self_amount_to_coins_def)

lemma return_coins_raised:
  "amount_to_coins (balance m) (coins m) prettify = Inl e \<Longrightarrow>
   return_coins m prettify = (Inl e, m)"
  by (simp add: return_coins_def self_amount_to_coins_def)

lemma coins_init: "coins (VendingMachineModel_init b inventory0) = [100, 50, 20, 10, 5]"
  by (simp add: VendingMachineModel_init_def sorted_reverse_def DEFAULT_COINS_def)

lemma py_int_py_max_nonneg:
  assumes "py_int (py_max 0 y) = Inr k"
  shows "0 \<le> k"
proof (cases "float_gt_int y 0")
  case True
  then show ?thesis
    using assms by (cases y) (auto simp: py_max_def float_gt_int_def float_trunc_def)
next
  case False
  then show ?thesis using assms by (simp add: py_max_def)
qed

lemma insert_money_balance:
  "balance m \<le> balance (snd (insert_money m amount_eur))"
  using py_int_py_max_nonneg[of "float_times_100 amount_eur"]
  by (auto simp: insert_money_def Let_def split: sum.splits)

lemma insert_money_coins: "coins (snd (insert_money m amount_eur)) = coins m"
  by (auto simp: insert_money_def Let_def split: sum.splits)

lemma buy_product_coins: "coins (snd (buy_product m i)) = coins m"
  by (auto simp: buy_product_def Let_def split: sum.splits prod.splits option.splits)

lemma return_coins_coins: "coins (snd (return_coins m prettify)) = coins m"
  by (auto simp: return_coins_def split: sum.splits)

lemma buy_product_paid:
  assumes "buy_product m i = (Inr (Some paid, msg), m')"
  shows "paid \<le> balance m \<and> balance m' = balance m - paid"
proof -
  obtain r products where r: "retrieve_product (inventory m) i (balance m) = (r, products)"
    by (cases "retrieve_product (inventory m) i (balance m)")
  with assms have "r = Inr (Some paid, msg)" and m': "m' = m\<lparr>inventory := products, balance := balance m - paid\<rparr>"
    by (auto simp: buy_product_def Let_def split: sum.splits option.splits)
  with r retrieve_product_SomeD[of "inventory m" i "balance m" paid msg products]
  show ?thesis by auto
qed

lemma buy_product_balance: "0 \<le> balance m \<Longrightarrow> 0 \<le> balance (snd (buy_product m i))"
proof -
  assume b: "0 \<le> balance m"
  obtain r m' where bp: "buy_product m i = (r, m')" by (cases "buy_product m i")
  show ?thesis
  proof (cases "\<exists>paid msg. r = Inr (Some paid, msg)")
    case True
    then show ?thesis using buy_product_paid[of m i] bp by auto
  next
    case False
    then have "balance m' = balance m"
      using bp by (auto simp: buy_product_def Let_def split: sum.splits prod.splits option.splits)
    then show ?thesis using b bp by simp
  qed
qed

lemma return_coins_default_balance:
  assumes "coins m = sorted_reverse DEFAULT_COINS"
  shows "balance (snd (return_coins m prettify)) = 0"
proof -
  from assms have "set (coins m) = {5, 10, 20, 50, 100}" by (simp add: set_default_coins)
  from amount_to_coins_default_returns[OF this] obtain r
    where "amount_to_coins (balance m) (coins m) prettify = Inr r" ..
  then show ?thesis by (simp add: return_coins_returned)
qed

lemma do_call_coins: "coins (do_call m c) = coins m"
  by (cases c) (simp_all add: insert_money_coins buy_product_coins return_coins_coins)

lemma do_call_balance:
  assumes "0 \<le> balance m" and "coins m = sorted_reverse DEFAULT_COINS"
  shows "0 \<le> balance (do_call m c)"
proof (cases c)
  case (Insert_money amount_eur)
  then show ?thesis using insert_money_balance[of m amount_eur] assms(1) by simp
next
  case (Buy_product i)
  then show ?thesis using assms(1) by (simp add: buy_product_balance)
next
  case (Return_coins prettify)
  then show ?thesis using assms(2) by (simp add: return_coins_default_balance)
qed

lemma run_calls_invariant:
  "0 \<le> balance m \<Longrightarrow> coins m = sorted_reverse DEFAULT_COINS \<Longrightarrow>
   0 \<le> balance (run_calls m cs) \<and> coins (run_calls m cs) = sorted_reverse DEFAULT_COINS"
proof (induction cs arbitrary: m)
  case Nil
  then show ?case by simp
next
  case (Cons c cs)
  have "0 \<le> balance (do_call m c)" using Cons.prems by (rule do_call_balance)
  moreover have "coins (do_call m c) = sorted_reverse DEFAULT_COINS"
    using Cons.prems(2) by (simp add: do_call_coins)
  ultimately show ?case using Cons.IH by simp
qed

lemma insert_money_cents:
  "py_int (py_max 0 (float_times_100 amount_eur)) = Inr k \<Longrightarrow>
   insert_money m amount_eur =
     (py_truediv (balance m + k) 100, m\<lparr>balance := balance m + k\<rparr>)"
  by (simp add: insert_money_def Let_def)

lemma inserted_cents_nonpos:
  assumes "q \<le> 0"
  shows "py_int (py_max 0 (float_times_100 (Finite q))) = Inr 0"
proof -
  from assms have "q * 100 \<le> 0" by simp
  from round_double_nonpos[OF this] show ?thesis
    by (auto simp: float_times_100_def py_max_def float_gt_int_def)
qed

text \<open>A negative amount adds nothing, and 0.2498 adds 24 cent.\<close>

lemma insert_money_negative:
  "q < 0 \<Longrightarrow> insert_money m (Finite q) = (py_truediv (balance m) 100, m)"
  using insert_money_cents[of "Finite q" 0 m] by (simp add: inserted_cents_nonpos)

lemma inserted_cents_0_2498:
  "py_int (py_max 0 (float_times_100 (float_literal (1249 / 5000)))) = Inr 24"
  by (simp add: float_literal_0_2498 float_times_100_0_2498 py_max_def float_gt_int_def
      float_trunc_def floor_24_98)

lemma insert_money_0_2498:
  "spec_inserted_cents (2498 / 10000) = 24 \<and>
   insert_money m (float_literal (2498 / 10000)) =
     (py_truediv (balance m + 24) 100, m\<lparr>balance := balance m + 24\<rparr>)"
proof -
  have "\<lfloor>1249 / 50 :: rat\<rfloor> = 24" by (rule floor_unique) simp_all
  then have "spec_inserted_cents (2498 / 10000) = 24" by (simp add: spec_inserted_cents_def)
  moreover have "insert_money m (float_literal (1249 / 5000)) =
      (py_truediv (balance m + 24) 100, m\<lparr>balance := balance m + 24\<rparr>)"
    using inserted_cents_0_2498 by (rule insert_money_cents)
  ultimately show ?thesis by simp
qed

lemma inserted_cents_0_29:
  "py_int (py_max 0 (float_times_100 (float_literal (29 / 100)))) = Inr 28"
  by (simp add: float_literal_0_29 float_times_100_0_29 py_max_def float_gt_int_def
      float_trunc_def floor_28_99)

lemma inserted_cents_4_35:
  "py_int (py_max 0 (float_times_100 (float_literal (87 / 20)))) = Inr 434"
  by (simp add: float_literal_4_35 float_times_100_4_35 py_max_def float_gt_int_def
      float_trunc_def floor_434_99)

text \<open>The balance divided by 100 is the float nearest to the quotient.\<close>

lemma py_truediv_100_literal:
  assumes "\<bar>b\<bar> < 2 ^ 1023"
  shows "py_truediv b 100 = Inr (float_literal (of_int b / 100))"
proof -
  have "\<bar>rat_of_int b / 100\<bar> \<le> \<bar>rat_of_int b\<bar>" by simp
  also have "\<dots> = of_int \<bar>b\<bar>" by simp
  also have "\<dots> < of_int (2 ^ 1023)" using assms by (simp only: of_int_less_iff)
  also have "\<dots> = 2 powi 1023" by simp
  finally obtain r where "round_double (of_int b / 100) = Finite r"
    using round_double_finite by blast
  then show ?thesis by (simp add: py_truediv_def float_literal_def)
qed

section \<open>Verified properties\<close>

text \<open>
  Claim C1. For an amount \<open>amount_ct \<ge> 0\<close> and a non-empty collection of positive
  denominations, \<open>amount_to_coins\<close> without prettifying uses the denominations in descending
  order (\<open>sorted_reverse coin_set\<close> is a descending rearrangement of \<open>coin_set\<close>), returns
  exactly what the greedy strategy of the specification picks when nothing is left over, and
  returns \<open>None\<close> when the remainder is not zero. Whenever a list is returned its sum is
  \<open>amount_ct\<close> and each of its elements is one of the denominations.
\<close>

theorem amount_to_coins_greedy_sum:
  assumes "0 \<le> amount_ct" and "coin_set \<noteq> []" and "\<forall>c\<in>set coin_set. 0 < c"
  shows "sorted (rev (sorted_reverse coin_set)) \<and> mset (sorted_reverse coin_set) = mset coin_set \<and>
     (case greedy_spec (sorted_reverse coin_set) amount_ct of
        (picked, left) \<Rightarrow>
          amount_to_coins amount_ct coin_set False =
            (if left \<noteq> 0 then Inr None else Inr (Some (Ints picked)))) \<and>
     (\<forall>xs. amount_to_coins amount_ct coin_set False = Inr (Some (Ints xs)) \<longrightarrow>
        sum_list xs = amount_ct \<and> set xs \<subseteq> set coin_set)"
proof -
  let ?ds = "sorted_reverse coin_set"
  have nz: "0 \<notin> set coin_set" using assms(3) by auto
  have pos: "\<forall>c\<in>set ?ds. 0 < c" using assms(3) by (simp add: sorted_reverse_descending)
  note g = amount_to_coins_greedy[OF nz, of amount_ct]
  have 1: "case greedy_spec ?ds amount_ct of
        (picked, left) \<Rightarrow>
          amount_to_coins amount_ct coin_set False =
            (if left \<noteq> 0 then Inr None else Inr (Some (Ints picked)))"
    by (simp add: g split_beta)
  have 2: "sum_list xs = amount_ct \<and> set xs \<subseteq> set coin_set"
    if "amount_to_coins amount_ct coin_set False = Inr (Some (Ints xs))" for xs
  proof -
    from that have l: "snd (greedy_spec ?ds amount_ct) = 0" and x: "xs = fst (greedy_spec ?ds amount_ct)"
      by (auto simp: g split_beta split: if_splits)
    from greedy_spec_sum[OF pos assms(1)] l x have "sum_list xs = amount_ct" by simp
    moreover have "set xs \<subseteq> set coin_set"
      using greedy_spec_set[of ?ds amount_ct] x by (simp add: sorted_reverse_descending)
    ultimately show ?thesis by simp
  qed
  show ?thesis using 1 2 by (simp add: sorted_reverse_descending)
qed

theorem amount_to_coins_greedy_sum_witness:
  "amount_to_coins 85 DEFAULT_COINS False = Inr (Some (Ints [50, 20, 10, 5])) \<and>
   sum_list [50, 20, 10, 5] = (85::int) \<and>
   greedy_spec (sorted_reverse DEFAULT_COINS) 85 = ([50, 20, 10, 5], 0)"
proof -
  have h1: "(0::int) \<le> 85" by simp
  have h2: "DEFAULT_COINS \<noteq> []" by (simp add: DEFAULT_COINS_def)
  have h3: "\<forall>c\<in>set DEFAULT_COINS. 0 < c" by (simp add: DEFAULT_COINS_def)
  have g: "greedy_spec (sorted_reverse DEFAULT_COINS) 85 = ([50, 20, 10, 5], 0)"
    by (simp add: DEFAULT_COINS_def sorted_reverse_def)
  from amount_to_coins_greedy_sum[OF h1 h2 h3] g show ?thesis by simp
qed

text \<open>
  Claim C2. \<open>retrieve_product\<close> checks in a fixed order. An id that is not in the dictionary
  gives \<open>None\<close> with the message "No product with id", whatever the stock and the amount. A
  known product whose stock is 0 gives \<open>None\<close> with the message "is sold out", whatever the
  amount, so also when the amount is below the price. Only for a known product in stock an
  amount below the price in cent gives \<open>None\<close> with the message "Insufficient funds".
  Conversely, a caller who sees "is sold out" asked for a known product with stock 0, and a
  caller who sees "Insufficient funds" asked for a known product that is in stock.
\<close>

theorem retrieve_product_failure_order:
  "(products i = None \<longrightarrow>
      retrieve_product products i amount_ct = (Inr (None, No_product_with_id i), products)) \<and>
   (\<forall>p. products i = Some p \<and> stock p = 0 \<longrightarrow>
      retrieve_product products i amount_ct =
        (Inr (None, Product_is_sold_out i (name p)), products)) \<and>
   (\<forall>p price_ct. products i = Some p \<and> stock p \<noteq> 0 \<and>
      py_int (PyFloat (float_times_100 (price p))) = Inr price_ct \<and> amount_ct < price_ct \<longrightarrow>
      retrieve_product products i amount_ct = (Inr (None, Insufficient_funds), products)) \<and>
   (\<forall>j n. fst (retrieve_product products i amount_ct) = Inr (None, Product_is_sold_out j n) \<longrightarrow>
      (\<exists>p. products i = Some p \<and> stock p = 0)) \<and>
   (fst (retrieve_product products i amount_ct) = Inr (None, Insufficient_funds) \<longrightarrow>
      (\<exists>p. products i = Some p \<and> stock p \<noteq> 0))"
proof (intro conjI allI impI)
  assume "products i = None"
  then show "retrieve_product products i amount_ct = (Inr (None, No_product_with_id i), products)"
    by (rule retrieve_product_unknown)
next
  fix p assume "products i = Some p \<and> stock p = 0"
  then show "retrieve_product products i amount_ct =
      (Inr (None, Product_is_sold_out i (name p)), products)"
    by (simp add: retrieve_product_sold_out)
next
  fix p price_ct
  assume "products i = Some p \<and> stock p \<noteq> 0 \<and>
      py_int (PyFloat (float_times_100 (price p))) = Inr price_ct \<and> amount_ct < price_ct"
  then show "retrieve_product products i amount_ct = (Inr (None, Insufficient_funds), products)"
    by (simp add: retrieve_product_insufficient)
next
  fix j n
  assume "fst (retrieve_product products i amount_ct) = Inr (None, Product_is_sold_out j n)"
  then show "\<exists>p. products i = Some p \<and> stock p = 0"
    by (auto simp: retrieve_product_def split: option.splits if_splits sum.splits)
next
  assume "fst (retrieve_product products i amount_ct) = Inr (None, Insufficient_funds)"
  then show "\<exists>p. products i = Some p \<and> stock p \<noteq> 0"
    by (auto simp: retrieve_product_def split: option.splits if_splits sum.splits)
qed

theorem retrieve_product_failure_order_witness:
  "retrieve_product (Inventory_init (Some test_database)) 4 0 =
     (Inr (None, No_product_with_id 4), Inventory_init (Some test_database)) \<and>
   retrieve_product (Inventory_init (Some test_database)) 3 0 =
     (Inr (None, Product_is_sold_out 3 ''Soy Milk''), Inventory_init (Some test_database)) \<and>
   retrieve_product (Inventory_init (Some test_database)) 1 400 =
     (Inr (None, Insufficient_funds), Inventory_init (Some test_database))"
  using retrieve_product_failure_order[of "Inventory_init (Some test_database)" 4 0]
    retrieve_product_failure_order[of "Inventory_init (Some test_database)" 3 0]
    retrieve_product_failure_order[of "Inventory_init (Some test_database)" 1 400]
  by (simp add: test_inventory_lookup price_ct_4_50)

text \<open>
  Claim C3. \<open>return_coins\<close> computes \<open>amount_to_coins\<close> of the current balance with the
  coins of the machine and, whatever that returns (a list or \<open>None\<close>), hands the result on
  and leaves the machine with balance 0 and nothing else changed. With the coins every
  constructed machine has, \<open>amount_to_coins\<close> always returns, so that the reset always
  happens.
\<close>

theorem return_coins_resets_balance:
  "(\<forall>r. amount_to_coins (balance m) (coins m) prettify = Inr r \<longrightarrow>
      return_coins m prettify = (Inr r, m\<lparr>balance := 0\<rparr>) \<and>
      balance (snd (return_coins m prettify)) = 0) \<and>
   (coins m = sorted_reverse DEFAULT_COINS \<longrightarrow>
      (\<exists>r. amount_to_coins (balance m) (coins m) prettify = Inr r))"
proof (intro conjI allI impI)
  fix r assume r: "amount_to_coins (balance m) (coins m) prettify = Inr r"
  then show "return_coins m prettify = (Inr r, m\<lparr>balance := 0\<rparr>)"
    by (rule return_coins_returned)
  then show "balance (snd (return_coins m prettify)) = 0" by simp
next
  assume "coins m = sorted_reverse DEFAULT_COINS"
  then have "set (coins m) = {5, 10, 20, 50, 100}" by (simp add: set_default_coins)
  then show "\<exists>r. amount_to_coins (balance m) (coins m) prettify = Inr r"
    by (rule amount_to_coins_default_returns)
qed

theorem return_coins_resets_balance_witness:
  "return_coins (VendingMachineModel_init 475 None) False =
     (Inr (Some (Ints [100, 100, 100, 100, 50, 20, 5])),
      (VendingMachineModel_init 475 None)\<lparr>balance := 0\<rparr>) \<and>
   return_coins (VendingMachineModel_init 2 None) False =
     (Inr None, (VendingMachineModel_init 2 None)\<lparr>balance := 0\<rparr>)"
proof -
  have a: "amount_to_coins (balance (VendingMachineModel_init 475 None))
      (coins (VendingMachineModel_init 475 None)) False =
      Inr (Some (Ints [100, 100, 100, 100, 50, 20, 5]))"
    by (simp add: amount_to_coins_def sorted_reverse_def VendingMachineModel_init_def DEFAULT_COINS_def
        eval_nat_numeral)
  have b: "amount_to_coins (balance (VendingMachineModel_init 2 None))
      (coins (VendingMachineModel_init 2 None)) False = Inr None"
    by (simp add: amount_to_coins_def sorted_reverse_def VendingMachineModel_init_def DEFAULT_COINS_def
        eval_nat_numeral)
  from return_coins_resets_balance[of "VendingMachineModel_init 475 None" False]
    return_coins_resets_balance[of "VendingMachineModel_init 2 None" False] a b
  show ?thesis by simp
qed

text \<open>
  Claim C4. \<open>buy_product\<close> calls \<open>retrieve_product\<close> of the inventory with the current
  balance. When the retrieval succeeds with the price \<open>paid\<close>, the balance decreases by
  exactly \<open>paid\<close> and the pair (price, message) is returned; when it fails, the pair
  (\<open>None\<close>, message) is returned as it came and the machine, its balance included, is as
  before.
\<close>

theorem buy_product_delegates:
  "(\<forall>paid msg products'.
      retrieve_product (inventory m) i (balance m) = (Inr (Some paid, msg), products') \<longrightarrow>
      buy_product m i =
        (Inr (Some paid, msg), m\<lparr>inventory := products', balance := balance m - paid\<rparr>)) \<and>
   (\<forall>msg products'.
      retrieve_product (inventory m) i (balance m) = (Inr (None, msg), products') \<longrightarrow>
      buy_product m i = (Inr (None, msg), m))"
proof (intro conjI allI impI)
  fix paid msg products'
  assume "retrieve_product (inventory m) i (balance m) = (Inr (Some paid, msg), products')"
  then show "buy_product m i =
        (Inr (Some paid, msg), m\<lparr>inventory := products', balance := balance m - paid\<rparr>)"
    by (simp add: buy_product_def)
next
  fix msg products'
  assume r: "retrieve_product (inventory m) i (balance m) = (Inr (None, msg), products')"
  then have "products' = inventory m" by (rule retrieve_product_unchanged) simp
  with r show "buy_product m i = (Inr (None, msg), m)"
    by (simp add: buy_product_def)
qed

theorem buy_product_delegates_witness:
  "buy_product (VendingMachineModel_init 475 (Some (Inventory_init (Some test_database)))) 1 =
     (Inr (Some 450, You_retrieved ''Pinot Noir'' (float_literal (9 / 2))),
      (VendingMachineModel_init 475 (Some (Inventory_init (Some test_database))))
        \<lparr>inventory := (Inventory_init (Some test_database))
           (1 \<mapsto> \<lparr>prod_id = 1, name = ''Pinot Noir'', price = float_literal (9 / 2), stock = 0\<rparr>),
         balance := 25\<rparr>) \<and>
   buy_product (VendingMachineModel_init 0 (Some (Inventory_init (Some test_database)))) 1 =
     (Inr (None, Insufficient_funds),
      VendingMachineModel_init 0 (Some (Inventory_init (Some test_database))))"
proof -
  let ?inv = "Inventory_init (Some test_database)"
  let ?p = "\<lparr>prod_id = 1, name = ''Pinot Noir'', price = float_literal (9 / 2), stock = 1\<rparr>"
  have ok: "retrieve_product ?inv 1 475 =
      (Inr (Some 450, You_retrieved (name ?p) (price ?p)), ?inv(1 \<mapsto> ?p\<lparr>stock := stock ?p - 1\<rparr>))"
    by (rule retrieve_product_success[of ?inv 1 ?p])
      (simp_all add: test_inventory_lookup price_ct_4_50)
  have ko: "retrieve_product ?inv 1 0 = (Inr (None, Insufficient_funds), ?inv)"
    by (rule retrieve_product_insufficient[of ?inv 1 ?p 450])
      (simp_all add: test_inventory_lookup price_ct_4_50)
  from buy_product_delegates[of "VendingMachineModel_init 475 (Some ?inv)" 1]
    buy_product_delegates[of "VendingMachineModel_init 0 (Some ?inv)" 1]
  show ?thesis
    by (simp add: VendingMachineModel_init_def ok ko)
qed

text \<open>
  Claim C5. The balance is an integer by its type. A machine is constructed with the initial
  balance 0; after any sequence of calls of \<open>insert_money\<close>, \<open>buy_product\<close> and
  \<open>return_coins\<close> its balance is not negative. From such a machine \<open>insert_money\<close> never
  lowers the balance (a negative amount adds nothing), a successful \<open>buy_product\<close> deducts a
  price that is at most the balance, and \<open>return_coins\<close> leaves the balance 0.
\<close>

theorem balance_never_negative:
  assumes "m = run_calls (VendingMachineModel_init 0 inventory0) calls"
  shows "balance (VendingMachineModel_init 0 inventory0) = 0 \<and>
     0 \<le> balance m \<and>
     (\<forall>amount_eur. balance m \<le> balance (snd (insert_money m amount_eur))) \<and>
     (\<forall>i paid msg m'. buy_product m i = (Inr (Some paid, msg), m') \<longrightarrow>
        paid \<le> balance m \<and> balance m' = balance m - paid) \<and>
     (\<forall>i. 0 \<le> balance (snd (buy_product m i))) \<and>
     (\<forall>prettify. balance (snd (return_coins m prettify)) = 0)"
proof -
  have i: "0 \<le> balance (VendingMachineModel_init 0 inventory0)"
    "coins (VendingMachineModel_init 0 inventory0) = sorted_reverse DEFAULT_COINS"
    by (simp_all add: VendingMachineModel_init_def)
  from run_calls_invariant[OF i, of calls]
  have b: "0 \<le> balance m" and c: "coins m = sorted_reverse DEFAULT_COINS"
    by (simp_all add: assms)
  show ?thesis
    using b c
    by (auto simp: insert_money_balance buy_product_balance return_coins_default_balance
        VendingMachineModel_init_def dest: buy_product_paid)
qed

theorem balance_never_negative_witness:
  "0 \<le> balance (run_calls (VendingMachineModel_init 0 None)
      [Insert_money (float_literal (1249 / 5000)), Insert_money (Finite (- 5)),
       Buy_product 1, Return_coins False]) \<and>
   balance (snd (return_coins (run_calls (VendingMachineModel_init 0 None)
      [Insert_money (float_literal (1249 / 5000)), Buy_product 1]) True)) = 0"
  using balance_never_negative[OF refl, of None
      "[Insert_money (float_literal (1249 / 5000)), Insert_money (Finite (- 5)),
        Buy_product 1, Return_coins False]"]
    balance_never_negative[OF refl, of None
      "[Insert_money (float_literal (1249 / 5000)), Buy_product 1]"]
  by blast

text \<open>
  Claim C6. The claim takes the price in cent of a product as \<open>floor(price * 100)\<close> of its
  price and has \<open>retrieve_product\<close> answer "Insufficient funds" exactly when the amount
  offered is below it. The code computes the price in cent as \<open>int(price * 100)\<close> on floats,
  and the two differ. A product priced 0.29 has the price 29 cent; the float product
  \<open>0.29 * 100\<close> is slightly below 29 and \<open>int\<close> gives 28, so \<open>retrieve_product\<close> called with
  28 cent does not answer "Insufficient funds": it hands the product out, returns 28 as the
  amount spent with a message that names the price 0.29, and takes the product out of stock.
  For the price 1.20 the code does what the claim says
  (\<open>retrieve_product_1_20_costs_120\<close>).
\<close>

theorem retrieve_product_0_29_sells_for_28_ct:
  "spec_price_ct (29 / 100) = 29 \<and>
   retrieve_product (Inventory_init (Some gum_database)) 1 28 =
     (Inr (Some 28, You_retrieved ''Gum'' (float_literal (29 / 100))),
      (Inventory_init (Some gum_database))
        (1 \<mapsto> \<lparr>prod_id = 1, name = ''Gum'', price = float_literal (29 / 100), stock = 0\<rparr>))"
proof -
  let ?inv = "Inventory_init (Some gum_database)"
  let ?p = "\<lparr>prod_id = 1, name = ''Gum'', price = float_literal (29 / 100), stock = 1\<rparr>"
  have s: "stock ?p \<noteq> 0" by simp
  have pc: "py_int (PyFloat (float_times_100 (price ?p))) = Inr 28" by (simp add: price_ct_0_29)
  have "retrieve_product ?inv 1 28 =
      (Inr (Some 28, You_retrieved (name ?p) (price ?p)), ?inv(1 \<mapsto> ?p\<lparr>stock := stock ?p - 1\<rparr>))"
    by (rule retrieve_product_success[of ?inv 1 ?p, OF gum_database_lookup s pc]) simp
  then show ?thesis by (simp add: spec_price_ct_def)
qed

text \<open>
  Claim C7. The claim has \<open>insert_money\<close> add exactly \<open>floor(max(0, amount) * 100)\<close> cents for
  every amount. The code adds \<open>int(max(0, amount * 100))\<close>, computed on floats, and the two
  differ. Inserting 0.29 into a new machine must add 29 cents; the float product
  \<open>0.29 * 100\<close> is slightly below 29, the code adds 28 cents and returns the balance 0.28.
  In the same way 4.35 adds 434 cents and not 435. For the amount infinity the call raises
  OverflowError and adds nothing. For a negative amount and for 0.2498 the code does what
  the claim says (\<open>insert_money_negative\<close>, \<open>insert_money_0_2498\<close>).
\<close>

theorem insert_money_0_29_adds_28_cents:
  "spec_inserted_cents (29 / 100) = 29 \<and>
   insert_money (VendingMachineModel_init 0 None) (float_literal (29 / 100)) =
     (Inr (float_literal (28 / 100)), (VendingMachineModel_init 0 None)\<lparr>balance := 28\<rparr>) \<and>
   spec_inserted_cents (435 / 100) = 435 \<and>
   insert_money (VendingMachineModel_init 0 None) (float_literal (435 / 100)) =
     (Inr (float_literal (434 / 100)), (VendingMachineModel_init 0 None)\<lparr>balance := 434\<rparr>) \<and>
   insert_money (VendingMachineModel_init 0 None) (Infinite False) =
     (Inl OverflowError, VendingMachineModel_init 0 None)"
proof -
  let ?m = "VendingMachineModel_init 0 None"
  have b: "balance ?m = 0" by (simp add: VendingMachineModel_init_def)
  have d1: "py_truediv 28 100 = Inr (float_literal (7 / 25))"
    using py_truediv_100_literal[of 28] by simp
  have d2: "py_truediv 434 100 = Inr (float_literal (217 / 50))"
    using py_truediv_100_literal[of 434] by simp
  have 1: "insert_money ?m (float_literal (29 / 100)) =
      (Inr (float_literal (7 / 25)), ?m\<lparr>balance := 28\<rparr>)"
    using insert_money_cents[OF inserted_cents_0_29, of ?m] by (simp add: b d1)
  have 2: "insert_money ?m (float_literal (87 / 20)) =
      (Inr (float_literal (217 / 50)), ?m\<lparr>balance := 434\<rparr>)"
    using insert_money_cents[OF inserted_cents_4_35, of ?m] by (simp add: b d2)
  have 3: "insert_money ?m (Infinite False) = (Inl OverflowError, ?m)"
    by (simp add: insert_money_def float_times_100_def py_max_def float_gt_int_def)
  have 4: "spec_inserted_cents (29 / 100) = 29" "spec_inserted_cents (435 / 100) = 435"
    by (simp_all add: spec_inserted_cents_def)
  show ?thesis using 1 2 3 4 by simp
qed

text \<open>
  Claim C8. Every successful \<open>retrieve_product\<close> call for a product leaves that product in
  the inventory with its stock decreased by exactly 1. Starting from a stock of \<open>n\<close>, \<open>n\<close>
  calls that each offer at least the price all succeed, the stock is then 0, and every
  further call for that id answers "is sold out", whatever amount it offers.
\<close>

theorem retrieve_product_decrements_until_sold_out:
  assumes "products i = Some p"
  shows "(\<forall>amount_ct paid msg products'.
            retrieve_product products i amount_ct = (Inr (Some paid, msg), products') \<longrightarrow>
            products' i = Some (p\<lparr>stock := stock p - 1\<rparr>)) \<and>
         (\<forall>amounts price_ct.
            stock p = int (length amounts) \<and>
            py_int (PyFloat (float_times_100 (price p))) = Inr price_ct \<and>
            (\<forall>a\<in>set amounts. price_ct \<le> a) \<longrightarrow>
            (\<exists>products'.
               retrieve_each products i amounts =
                 (replicate (length amounts)
                    (Inr (Some price_ct, You_retrieved (name p) (price p))), products') \<and>
               products' i = Some (p\<lparr>stock := 0\<rparr>) \<and>
               (\<forall>amount_ct. retrieve_product products' i amount_ct =
                  (Inr (None, Product_is_sold_out i (name p)), products'))))"
proof (intro conjI allI impI)
  fix amount_ct paid msg products'
  assume "retrieve_product products i amount_ct = (Inr (Some paid, msg), products')"
  from retrieve_product_SomeD[OF this] assms
  show "products' i = Some (p\<lparr>stock := stock p - 1\<rparr>)" by auto
next
  fix amounts price_ct
  assume h: "stock p = int (length amounts) \<and>
            py_int (PyFloat (float_times_100 (price p))) = Inr price_ct \<and>
            (\<forall>a\<in>set amounts. price_ct \<le> a)"
  let ?products = "products(i \<mapsto> p\<lparr>stock := 0\<rparr>)"
  have e: "retrieve_each products i amounts =
      (replicate (length amounts) (Inr (Some price_ct, You_retrieved (name p) (price p))),
       ?products)"
    using retrieve_each_until_sold_out[of products i p amounts price_ct] assms h by simp
  have l: "?products i = Some (p\<lparr>stock := 0\<rparr>)" by simp
  have "retrieve_product ?products i amount_ct =
      (Inr (None, Product_is_sold_out i (name p)), ?products)" for amount_ct
    using retrieve_product_sold_out[of ?products i "p\<lparr>stock := 0\<rparr>" amount_ct] by simp
  with e l show "\<exists>products'.
               retrieve_each products i amounts =
                 (replicate (length amounts)
                    (Inr (Some price_ct, You_retrieved (name p) (price p))), products') \<and>
               products' i = Some (p\<lparr>stock := 0\<rparr>) \<and>
               (\<forall>amount_ct. retrieve_product products' i amount_ct =
                  (Inr (None, Product_is_sold_out i (name p)), products'))"
    by blast
qed

theorem retrieve_product_decrements_until_sold_out_witness:
  "\<exists>products'.
     retrieve_each (Inventory_init (Some test_database)) 2 [500, 350] =
       ([Inr (Some 350, You_retrieved ''Red Bull + Vodka'' (float_literal (7 / 2))),
         Inr (Some 350, You_retrieved ''Red Bull + Vodka'' (float_literal (7 / 2)))], products') \<and>
     retrieve_product products' 2 100000 =
       (Inr (None, Product_is_sold_out 2 ''Red Bull + Vodka''), products')"
proof -
  let ?p = "\<lparr>prod_id = 2, name = ''Red Bull + Vodka'', price = float_literal (7 / 2), stock = 2\<rparr>"
  have h: "stock ?p = int (length [500, 350::int]) \<and>
      py_int (PyFloat (float_times_100 (price ?p))) = Inr 350 \<and>
      (\<forall>a\<in>set [500, 350::int]. 350 \<le> a)"
    by (simp add: price_ct_3_50)
  from retrieve_product_decrements_until_sold_out[of "Inventory_init (Some test_database)" 2 ?p,
      OF test_inventory_lookup_2] h
  obtain products' where
    "retrieve_each (Inventory_init (Some test_database)) 2 [500, 350] =
       (replicate (length [500, 350::int])
          (Inr (Some 350, You_retrieved (name ?p) (price ?p))), products')"
    "\<forall>amount_ct. retrieve_product products' 2 amount_ct =
       (Inr (None, Product_is_sold_out 2 (name ?p)), products')"
    by blast
  then show ?thesis by (intro exI[of _ products']) (simp add: numeral_2_eq_2)
qed

text \<open>
  Claim C9. When the denomination 1 is among the (positive) denominations, the remainder
  after the loop is 0 for every amount \<open>amount_ct \<ge> 0\<close>: \<open>amount_to_coins\<close> without
  prettifying neither raises nor returns \<open>None\<close>, it returns a list.
\<close>

theorem amount_to_coins_unit_never_fails:
  assumes "0 \<le> amount_ct" and "1 \<in> set coin_set" and "\<forall>c\<in>set coin_set. 0 < c"
  shows "\<exists>xs. amount_to_coins amount_ct coin_set False = Inr (Some (Ints xs))"
proof -
  have nz: "0 \<notin> set coin_set" using assms(3) by auto
  have "1 \<in> set (sorted_reverse coin_set)" using assms(2) by (simp add: sorted_reverse_descending)
  then have "snd (greedy_spec (sorted_reverse coin_set) amount_ct) = 0" by (rule greedy_spec_unit)
  then show ?thesis by (simp add: amount_to_coins_greedy[OF nz] split_beta)
qed

theorem amount_to_coins_unit_never_fails_witness:
  "\<exists>xs. amount_to_coins 7 [1, 5] False = Inr (Some (Ints xs))"
proof -
  have h1: "(0::int) \<le> 7" by simp
  have h2: "(1::int) \<in> set [1, 5]" by simp
  have h3: "\<forall>c\<in>set [1, 5::int]. 0 < c" by simp
  from amount_to_coins_unit_never_fails[OF h1 h2 h3] show ?thesis .
qed

text \<open>
  Claim C10. A call of \<open>retrieve_product\<close> that does not succeed (unknown id, sold out,
  insufficient funds, or a raise) leaves the inventory as it was. A successful call for the
  id \<open>i\<close> changes only the stock of the product stored under \<open>i\<close>: its id, name and price
  and every other entry of the inventory stay as they were.
\<close>

theorem retrieve_product_frame:
  assumes "retrieve_product products i amount_ct = (r, products')"
  shows "((\<forall>paid msg. r \<noteq> Inr (Some paid, msg)) \<longrightarrow> products' = products) \<and>
         (\<forall>paid msg. r = Inr (Some paid, msg) \<longrightarrow>
            (\<exists>p p'. products i = Some p \<and> products' i = Some p' \<and>
               stock p' = stock p - 1 \<and> prod_id p' = prod_id p \<and>
               name p' = name p \<and> price p' = price p) \<and>
            (\<forall>j. j \<noteq> i \<longrightarrow> products' j = products j))"
proof (intro conjI allI impI)
  assume "\<forall>paid msg. r \<noteq> Inr (Some paid, msg)"
  with assms show "products' = products" by (rule retrieve_product_unchanged)
next
  fix paid msg
  assume "r = Inr (Some paid, msg)"
  with assms have "retrieve_product products i amount_ct = (Inr (Some paid, msg), products')"
    by simp
  from retrieve_product_SomeD[OF this]
  obtain p where p: "products i = Some p"
    "products' = products(i \<mapsto> p\<lparr>stock := stock p - 1\<rparr>)" by blast
  show "\<exists>p p'. products i = Some p \<and> products' i = Some p' \<and>
               stock p' = stock p - 1 \<and> prod_id p' = prod_id p \<and>
               name p' = name p \<and> price p' = price p"
    using p by simp
  show "\<And>j. j \<noteq> i \<Longrightarrow> products' j = products j"
    using p by simp
qed

theorem retrieve_product_frame_witness:
  "snd (retrieve_product (Inventory_init (Some test_database)) 1 500) 2 =
     Inventory_init (Some test_database) 2 \<and>
   snd (retrieve_product (Inventory_init (Some test_database)) 1 400) =
     Inventory_init (Some test_database)"
proof -
  let ?inv = "Inventory_init (Some test_database)"
  let ?p = "\<lparr>prod_id = 1, name = ''Pinot Noir'', price = float_literal (9 / 2), stock = 1\<rparr>"
  have ok: "retrieve_product ?inv 1 500 =
      (Inr (Some 450, You_retrieved (name ?p) (price ?p)), ?inv(1 \<mapsto> ?p\<lparr>stock := stock ?p - 1\<rparr>))"
    by (rule retrieve_product_success[of ?inv 1 ?p])
      (simp_all add: test_inventory_lookup price_ct_4_50)
  have ko: "retrieve_product ?inv 1 400 = (Inr (None, Insufficient_funds), ?inv)"
    by (rule retrieve_product_insufficient[of ?inv 1 ?p 450])
      (simp_all add: test_inventory_lookup price_ct_4_50)
  from retrieve_product_frame[OF ok] retrieve_product_frame[OF ko] show ?thesis
    by (simp add: ok ko)
qed

end
